theory Spec2Isabelle
  imports Main "HOL-Library.Sublist"
begin

section \<open>The Anki-to-Markdown exporter (convert.py)\<close>

text \<open>
  A shallow embedding of \<^verbatim>\<open>src/convert.py\<close>. Python strings are lists of Unicode code
  points (\<open>ustring\<close>, a code point is a \<open>nat\<close>), so that \<open>len\<close>, indexing and the
  character class of \<open>sanitize_filename\<close> (which reaches U+017F) mean what they mean in
  Python. Exceptions are values of the type \<open>error\<close>; the network, the file system and
  the console are explicit: the endpoint is a parameter, and \<open>main\<close> returns the
  directories it made, the files it opened and the lines it printed.
\<close>

subsection \<open>Strings\<close>

type_synonym uchar = nat
type_synonym ustring = "uchar list"

definition ustr :: "string \<Rightarrow> ustring" where
  "ustr s = map of_char s"

definition space :: uchar where "space = of_char CHR '' ''"
definition underscore :: uchar where "underscore = of_char CHR ''_''"

text \<open>\<^verbatim>\<open>name.replace(" ", "_")\<close>, for one-character arguments.\<close>

definition py_replace :: "uchar \<Rightarrow> uchar \<Rightarrow> ustring \<Rightarrow> ustring" where
  "py_replace old new s = map (\<lambda>c. if c = old then new else c) s"

text \<open>
  The character class \<^verbatim>\<open>[a-zA-Z0-9\-_.\u00C0-\u017F]\<close> that \<^verbatim>\<open>re.match\<close> tests each
  character against.
\<close>

definition allowed_char :: "uchar \<Rightarrow> bool" where
  "allowed_char c \<longleftrightarrow>
     (of_char CHR ''a'' \<le> c \<and> c \<le> of_char CHR ''z'') \<or>
     (of_char CHR ''A'' \<le> c \<and> c \<le> of_char CHR ''Z'') \<or>
     (of_char CHR ''0'' \<le> c \<and> c \<le> of_char CHR ''9'') \<or>
     c = of_char CHR ''-'' \<or> c = of_char CHR ''_'' \<or> c = of_char CHR ''.'' \<or>
     (0xC0 \<le> c \<and> c \<le> 0x17F)"

text \<open>
  \<^verbatim>\<open>re.sub(r'_+', '_', s)\<close>: scanning from the left, every maximal run of underscores
  is one match and is replaced by a single underscore.
\<close>

function re_sub_underscores :: "ustring \<Rightarrow> ustring" where
  "re_sub_underscores [] = []"
| "re_sub_underscores (c # cs) =
     (if c = underscore
      then underscore # re_sub_underscores (dropWhile (\<lambda>x. x = underscore) cs)
      else c # re_sub_underscores cs)"
  by pat_completeness auto
termination
  by (relation "measure length") (auto simp: less_Suc_eq_le length_dropWhile_le)

text \<open>\<^verbatim>\<open>s.strip(chars)\<close>: leading and trailing characters of the set \<open>P\<close> removed.\<close>

definition py_strip_chars :: "(uchar \<Rightarrow> bool) \<Rightarrow> ustring \<Rightarrow> ustring" where
  "py_strip_chars P s = rev (dropWhile P (rev (dropWhile P s)))"

subsection \<open>sanitize_filename\<close>

text \<open>
  \<^verbatim>\<open>
  def sanitize_filename(name):
      name = name.replace(" ", "_")
      allowed_chars = r'a-zA-Z0-9\-_.\u00C0-\u017F'
      sanitized = ''.join(c if re.match(f'[{allowed_chars}]', c) else '_' for c in name)
      sanitized = re.sub(r'_+', '_', sanitized).strip('_')
      if not sanitized:
          sanitized = 'unnamed'
      return sanitized
  \<close>
  \<open>sanitize_pre\<close> is the value of \<^verbatim>\<open>sanitized\<close> before the test for emptiness.
\<close>

definition sanitize_pre :: "ustring \<Rightarrow> ustring" where
  "sanitize_pre name =
     (let name = py_replace space underscore name;
          sanitized = map (\<lambda>c. if allowed_char c then c else underscore) name
      in py_strip_chars (\<lambda>c. c = underscore) (re_sub_underscores sanitized))"

definition sanitize_filename :: "ustring \<Rightarrow> ustring" where
  "sanitize_filename name =
     (let sanitized = sanitize_pre name
      in if sanitized = [] then ustr ''unnamed'' else sanitized)"

text \<open>Two neighbouring underscores somewhere in a string, and the shape of a sanitized name.\<close>

fun adjacent_underscores :: "ustring \<Rightarrow> bool" where
  "adjacent_underscores (c # d # cs) =
     ((c = underscore \<and> d = underscore) \<or> adjacent_underscores (d # cs))"
| "adjacent_underscores _ = False"


definition wellformed_name :: "ustring \<Rightarrow> bool" where
  "wellformed_name r \<longleftrightarrow>
     list_all allowed_char r \<and> \<not> adjacent_underscores r \<and> r \<noteq> [] \<and>
     hd r \<noteq> underscore \<and> last r \<noteq> underscore"

subsection \<open>truncate_title\<close>


text \<open>
  \<^verbatim>\<open>
  def truncate_title(title, max_length=200):
      if len(title) <= max_length:
          return title
      space_index = title.rfind(' ', 0, max_length)
      if space_index != -1:
          return title[:space_index]
      else:
          return title[:max_length]
  \<close>
  \<^verbatim>\<open>max_length\<close> is a Python int and may be negative. A slice bound \<open>k\<close> on a
  string of length \<open>n\<close> is adjusted as Python does: a negative bound counts from the
  end and is clamped to 0, a bound beyond the end is clamped to \<open>n\<close>.
  \<^verbatim>\<open>s.rfind(c, start, stop)\<close> is the highest index of \<open>c\<close> within the adjusted
  bounds, or -1.
\<close>

definition py_clamp_index :: "nat \<Rightarrow> int \<Rightarrow> nat" where
  "py_clamp_index n k = (if k < 0 then nat (int n + k) else min (nat k) n)"

definition py_slice_to :: "ustring \<Rightarrow> int \<Rightarrow> ustring" where
  "py_slice_to s k = take (py_clamp_index (length s) k) s"

definition py_rfind :: "uchar \<Rightarrow> ustring \<Rightarrow> int \<Rightarrow> int \<Rightarrow> int" where
  "py_rfind c s start stop =
     (let lo = py_clamp_index (length s) start;
          hi = py_clamp_index (length s) stop;
          hits = filter (\<lambda>i. s ! i = c) [lo..<hi]
      in if hits = [] then - 1 else int (last hits))"

definition truncate_title :: "ustring \<Rightarrow> int \<Rightarrow> ustring" where
  "truncate_title title max_length =
     (if int (length title) \<le> max_length then title
      else let space_index = py_rfind space title 0 max_length
           in if space_index \<noteq> - 1 then py_slice_to title space_index
              else py_slice_to title max_length)"

subsection \<open>clean_field\<close>

text \<open>
  \<^verbatim>\<open>
  def clean_field(field):
      if field is None:
          return ""
      h = html2text.HTML2Text()
      ...                       # configuration of h
      md = h.handle(field)
      return md.strip()
  \<close>
  \<^verbatim>\<open>html2text\<close> is a third-party library; the configured converter \<^verbatim>\<open>h.handle\<close> is
  the parameter \<open>handle\<close>. \<^verbatim>\<open>md.strip()\<close> removes the characters for which
  \<^verbatim>\<open>str.isspace\<close> holds.
\<close>

definition py_isspace :: "uchar \<Rightarrow> bool" where
  "py_isspace c \<longleftrightarrow>
     (0x09 \<le> c \<and> c \<le> 0x0D) \<or> (0x1C \<le> c \<and> c \<le> 0x20) \<or> c = 0x85 \<or> c = 0xA0 \<or>
     c = 0x1680 \<or> (0x2000 \<le> c \<and> c \<le> 0x200A) \<or> c = 0x2028 \<or> c = 0x2029 \<or>
     c = 0x202F \<or> c = 0x205F \<or> c = 0x3000"

definition py_strip :: "ustring \<Rightarrow> ustring" where
  "py_strip s = py_strip_chars py_isspace s"

definition clean_field :: "(ustring \<Rightarrow> ustring) \<Rightarrow> ustring option \<Rightarrow> ustring" where
  "clean_field handle field =
     (case field of
        None \<Rightarrow> []
      | Some html \<Rightarrow> let md = handle html in py_strip md)"

subsection \<open>anki_connect\<close>

text \<open>
  \<^verbatim>\<open>
  def anki_connect(action, **params):
      request_json = {"action": action, "version": 6, "params": params}
      try:
          response = requests.post(ANKI_CONNECT_URL, json=request_json)
          response.raise_for_status()
          result = response.json()
          if result.get("error"):
              raise Exception(f"AnkiConnect error: {result['error']}")
          return result["result"]
      except requests.exceptions.RequestException as e:
          raise Exception(f"Failed to connect to AnkiConnect: {e}")
  \<close>
  The endpoint is the parameter \<open>post\<close>: it either raises a
  \<^verbatim>\<open>RequestException\<close> or returns a status code and a body. Every statement of the
  \<^verbatim>\<open>try\<close> block can fail, in this order:
  \<^item> \<^verbatim>\<open>requests.post\<close> raises a \<^verbatim>\<open>RequestException\<close>;
  \<^item> \<^verbatim>\<open>raise_for_status\<close> raises \<^verbatim>\<open>HTTPError\<close>, a \<^verbatim>\<open>RequestException\<close>, for a
    status from 400 to 599;
  \<^item> \<^verbatim>\<open>response.json()\<close> raises the \<^verbatim>\<open>JSONDecodeError\<close> of \<^verbatim>\<open>requests\<close>, a
    \<^verbatim>\<open>RequestException\<close> as well, for a body that is not JSON;
  \<^item> \<^verbatim>\<open>result.get\<close> raises \<^verbatim>\<open>AttributeError\<close> for a body that decodes to a JSON value
    other than an object;
  \<^item> \<^verbatim>\<open>result["result"]\<close> raises \<^verbatim>\<open>KeyError\<close> for an object without that key.

  The first three are caught by the \<^verbatim>\<open>except\<close> clause and raised again as a plain
  \<^verbatim>\<open>Exception\<close>; the last two are not caught. In a decoded object the keys
  \<^verbatim>\<open>"error"\<close> and \<^verbatim>\<open>"result"\<close> may each be missing. The error entry is any JSON value,
  and \<^verbatim>\<open>if result.get("error")\<close> tests its truth value. The result entry has the type
  the action documents. An exception message is kept as the data it is formatted from.
\<close>

datatype json =
    JNull | JBool bool | JInt int | JString ustring
  | JArray "json list" | JObject "(ustring \<times> json) list"

fun truthy :: "json \<Rightarrow> bool" where
  "truthy JNull = False"
| "truthy (JBool b) = b"
| "truthy (JInt i) = (i \<noteq> 0)"
| "truthy (JString s) = (s \<noteq> [])"
| "truthy (JArray xs) = (xs \<noteq> [])"
| "truthy (JObject kvs) = (kvs \<noteq> [])"

datatype params = No_params | Query ustring | Notes "int list"

record request =
  action :: string
  version :: nat
  params :: params

record 'a reply =
  error_field :: "json option"
  result_field :: "'a option"

datatype 'a body = Not_json | Not_an_object | Object "'a reply"

datatype request_exception = ConnectionError ustring | HTTPError nat | JSONDecodeError

datatype 'a post_outcome = Raised request_exception | Returned nat "'a body"

datatype exc_message = AnkiConnect_error json | Failed_to_connect request_exception

datatype error =
    Exception exc_message | AttributeError string | KeyError string | UnboundLocalError string

definition raise_for_status :: "nat \<Rightarrow> request_exception option" where
  "raise_for_status status =
     (if 400 \<le> status \<and> status < 600 then Some (HTTPError status) else None)"

text \<open>
  \<^verbatim>\<open>response.json()\<close>: the decoding fails, or gives a value that is not an object
  (\<open>None\<close>), or gives an object.
\<close>

definition response_json :: "'a body \<Rightarrow> request_exception + 'a reply option" where
  "response_json content =
     (case content of
        Not_json \<Rightarrow> Inl JSONDecodeError
      | Not_an_object \<Rightarrow> Inr None
      | Object result \<Rightarrow> Inr (Some result))"

definition anki_connect ::
  "(request \<Rightarrow> 'a post_outcome) \<Rightarrow> string \<Rightarrow> params \<Rightarrow> error + 'a" where
  "anki_connect post act ps =
     (let request_json = \<lparr>action = act, version = 6, params = ps\<rparr>
      in case post request_json of
           Raised e \<Rightarrow> Inl (Exception (Failed_to_connect e))
         | Returned status content \<Rightarrow>
             (case raise_for_status status of
                Some e \<Rightarrow> Inl (Exception (Failed_to_connect e))
              | None \<Rightarrow>
                  (case response_json content of
                     Inl e \<Rightarrow> Inl (Exception (Failed_to_connect e))
                   | Inr None \<Rightarrow> Inl (AttributeError ''get'')
                   | Inr (Some result) \<Rightarrow>
                       let err = (case error_field result of None \<Rightarrow> JNull | Some e \<Rightarrow> e)
                       in if truthy err then Inl (Exception (AnkiConnect_error err))
                          else (case result_field result of
                                  None \<Rightarrow> Inl (KeyError ''result'')
                                | Some r \<Rightarrow> Inr r))))"

text \<open>
  The notions the description of \<^verbatim>\<open>anki_connect\<close> uses. The transport fails when the
  request raises, when the status is one that \<^verbatim>\<open>raise_for_status\<close> rejects, or when
  the body is not JSON. The error entry of the response is the one of the decoded
  object, null when the key is missing, as \<^verbatim>\<open>result.get("error")\<close> reads it, and null
  where there is no decoded object; likewise its result entry.
\<close>

definition transport_fails :: "'a post_outcome \<Rightarrow> bool" where
  "transport_fails p =
     (case p of
        Raised e \<Rightarrow> True
      | Returned status content \<Rightarrow>
          (400 \<le> status \<and> status < 600) \<or>
          (case content of Not_json \<Rightarrow> True | Not_an_object \<Rightarrow> False | Object result \<Rightarrow> False))"

definition error_entry :: "'a post_outcome \<Rightarrow> json" where
  "error_entry p =
     (case p of
        Raised e \<Rightarrow> JNull
      | Returned status content \<Rightarrow>
          (case content of
             Not_json \<Rightarrow> JNull
           | Not_an_object \<Rightarrow> JNull
           | Object result \<Rightarrow> (case error_field result of None \<Rightarrow> JNull | Some e \<Rightarrow> e)))"

definition result_entry :: "'a post_outcome \<Rightarrow> 'a option" where
  "result_entry p =
     (case p of
        Raised e \<Rightarrow> None
      | Returned status content \<Rightarrow>
          (case content of
             Not_json \<Rightarrow> None
           | Not_an_object \<Rightarrow> None
           | Object result \<Rightarrow> result_field result))"

subsection \<open>Notes and the source client\<close>

text \<open>
  A note is the dictionary \<^verbatim>\<open>notesInfo\<close> returns: \<^verbatim>\<open>"noteId"\<close> and \<^verbatim>\<open>"fields"\<close>, a
  dictionary from field names to dictionaries with a \<^verbatim>\<open>"value"\<close>. \<open>py_get\<close> is
  \<^verbatim>\<open>d.get(k, default)\<close>; a missing \<^verbatim>\<open>"fields"\<close> reads as the empty dictionary, as
  \<^verbatim>\<open>note.get("fields", {})\<close> does.
\<close>

type_synonym 'v dict = "(string \<times> 'v) list"

definition py_get :: "'v dict \<Rightarrow> string \<Rightarrow> 'v \<Rightarrow> 'v" where
  "py_get d k dflt = (case map_of d k of None \<Rightarrow> dflt | Some v \<Rightarrow> v)"

record note_info =
  noteId :: "int option"
  note_fields :: "ustring dict dict"

text \<open>\<^verbatim>\<open>fields.get(k, {}).get("value", "")\<close>, for the field named \<open>k\<close>.\<close>

definition field_value :: "note_info \<Rightarrow> string \<Rightarrow> ustring" where
  "field_value n k = py_get (py_get (note_fields n) k []) ''value'' []"

record anki =
  post_deckNames :: "request \<Rightarrow> ustring list post_outcome"
  post_findNotes :: "request \<Rightarrow> int list post_outcome"
  post_notesInfo :: "request \<Rightarrow> note_info list post_outcome"

definition get_deck_names :: "anki \<Rightarrow> error + ustring list" where
  "get_deck_names env = anki_connect (post_deckNames env) ''deckNames'' No_params"

definition get_notes_in_deck :: "anki \<Rightarrow> ustring \<Rightarrow> error + note_info list" where
  "get_notes_in_deck env deck_name =
     (case anki_connect (post_findNotes env) ''findNotes''
             (Query (ustr ''deck:'' @ [0x22] @ deck_name @ [0x22])) of
        Inl e \<Rightarrow> Inl e
      | Inr note_ids \<Rightarrow>
          if note_ids = [] then Inr []
          else anki_connect (post_notesInfo env) ''notesInfo'' (Notes note_ids))"

subsection \<open>Formatting and paths\<close>

text \<open>
  \<^verbatim>\<open>str\<close> of a count and of a note id in an f-string, \<^verbatim>\<open>os.path.join\<close> (POSIX) and
  \<^verbatim>\<open>deck_name.split("::")\<close>.
\<close>

function str_nat :: "nat \<Rightarrow> ustring" where
  "str_nat n = (if n < 10 then [of_char CHR ''0'' + n]
                else str_nat (n div 10) @ [of_char CHR ''0'' + n mod 10])"
  by pat_completeness auto
termination
  by (relation "measure id") auto

declare str_nat.simps [simp del]

definition str_int :: "int \<Rightarrow> ustring" where
  "str_int i = (if i < 0 then of_char CHR ''-'' # str_nat (nat (- i)) else str_nat (nat i))"

definition str_note_id :: "int option \<Rightarrow> ustring" where
  "str_note_id note_id = (case note_id of None \<Rightarrow> ustr ''None'' | Some i \<Rightarrow> str_int i)"

definition slash :: uchar where "slash = of_char CHR ''/''"

fun os_path_join :: "ustring \<Rightarrow> ustring list \<Rightarrow> ustring" where
  "os_path_join path [] = path"
| "os_path_join path (b # p) =
     os_path_join
       (if b \<noteq> [] \<and> hd b = slash then b
        else if path = [] \<or> last path = slash then path @ b
        else path @ [slash] @ b) p"

fun py_split_colons_from :: "ustring \<Rightarrow> ustring \<Rightarrow> ustring list" where
  "py_split_colons_from part (c # d # cs) =
     (if c = of_char CHR '':'' \<and> d = of_char CHR '':''
      then part # py_split_colons_from [] cs
      else py_split_colons_from (part @ [c]) (d # cs))"
| "py_split_colons_from part cs = [part @ cs]"

definition py_split_colons :: "ustring \<Rightarrow> ustring list" where
  "py_split_colons s = py_split_colons_from [] s"

subsection \<open>main\<close>

text \<open>
  The state of a run: the local variable \<^verbatim>\<open>title\<close> of \<^verbatim>\<open>main\<close> (\<open>None\<close> while it
  is unbound), the calls of \<^verbatim>\<open>os.makedirs\<close>, the files opened for writing with what
  was written into them, and the printed lines, all in order. \<^verbatim>\<open>title_counts\<close> is
  local to a deck and is passed through the loop over its notes.

  The body of the loop over the notes, lines 116 to 148 of the source:
  \<^verbatim>\<open>
  fields = note.get("fields", {})
  front = fields.get("Front", {}).get("value", "")
  back = fields.get("Back", {}).get("value", "")
  note_id = note.get("noteId")
  if front:
      title = clean_field(front)
      truncated_title = truncate_title(title, max_length=200)
  else:
      truncated_title = f"Note_{note_id}"
  content = clean_field (back) if back else ""
  base_filename = sanitize_filename(truncated_title)
  count = title_counts.get(base_filename, 0)
  if count > 0:
      filename = f"{base_filename}_{count}.md"
  else:
      filename = f"{base_filename}.md"
  title_counts[base_filename] = count + 1
  full_path = os.path.join(directory_path, filename)
  with open(full_path, "w", encoding="utf-8") as f:
      f.write(f"# {title}\n\n{content}\n")
  print(f"Saved note {note_id} to {full_path}")
  \<close>
  When \<^verbatim>\<open>front\<close> is empty the branch taken does not assign \<^verbatim>\<open>title\<close>: the f-string
  reads the value a previous note left there, or raises \<^verbatim>\<open>UnboundLocalError\<close> after
  \<^verbatim>\<open>open\<close> has already created the file. \<open>next_filename\<close> is lines 135 to 140.
\<close>

datatype line =
    No_decks_found
  | Processing_deck ustring
  | No_notes_found ustring
  | Saved_note "int option" ustring
  | Error error

record state =
  title :: "ustring option"
  dirs :: "ustring list"
  files :: "(ustring \<times> ustring) list"
  out :: "line list"

definition output_dir :: ustring where
  "output_dir = ustr ''markdown_output''"

definition deck_directory :: "ustring \<Rightarrow> ustring" where
  "deck_directory deck_name =
     (let parts = py_split_colons deck_name;
          sanitized_parts = map sanitize_filename (filter (\<lambda>part. part \<noteq> []) parts)
      in os_path_join output_dir sanitized_parts)"

definition next_filename :: "(ustring \<rightharpoonup> nat) \<Rightarrow> ustring \<Rightarrow> ustring \<times> (ustring \<rightharpoonup> nat)" where
  "next_filename title_counts base_filename =
     (let count = (case title_counts base_filename of None \<Rightarrow> 0 | Some n \<Rightarrow> n);
          filename = (if count > 0 then base_filename @ ustr ''_'' @ str_nat count @ ustr ''.md''
                      else base_filename @ ustr ''.md'')
      in (filename, title_counts(base_filename \<mapsto> count + 1)))"

definition process_note ::
  "(ustring \<Rightarrow> ustring) \<Rightarrow> ustring \<Rightarrow> note_info \<Rightarrow> (ustring \<rightharpoonup> nat) \<times> state
     \<Rightarrow> error \<times> state + (ustring \<rightharpoonup> nat) \<times> state" where
  "process_note handle directory_path n cs =
     (let (title_counts, st) = cs;
          front = field_value n ''Front'';
          back = field_value n ''Back'';
          note_id = noteId n;
          (title_var, truncated_title) =
            (if front \<noteq> []
             then (Some (clean_field handle (Some front)),
                   truncate_title (clean_field handle (Some front)) 200)
             else (title st, ustr ''Note_'' @ str_note_id note_id));
          content = (if back \<noteq> [] then clean_field handle (Some back) else []);
          base_filename = sanitize_filename truncated_title;
          (filename, title_counts) = next_filename title_counts base_filename;
          full_path = os_path_join directory_path [filename]
      in case title_var of
           None \<Rightarrow>
             Inl (UnboundLocalError ''title'',
                  st\<lparr>files := files st @ [(full_path, [])]\<rparr>)
         | Some t \<Rightarrow>
             Inr (title_counts,
                  st\<lparr>title := Some t,
                     files := files st @
                       [(full_path, ustr ''# '' @ t @ [10, 10] @ content @ [10])],
                     out := out st @ [Saved_note note_id full_path]\<rparr>))"

fun process_notes ::
  "(ustring \<Rightarrow> ustring) \<Rightarrow> ustring \<Rightarrow> note_info list \<Rightarrow> (ustring \<rightharpoonup> nat) \<times> state
     \<Rightarrow> error \<times> state + (ustring \<rightharpoonup> nat) \<times> state" where
  "process_notes handle directory_path [] cs = Inr cs"
| "process_notes handle directory_path (n # ns) cs =
     (case process_note handle directory_path n cs of
        Inl failure \<Rightarrow> Inl failure
      | Inr cs' \<Rightarrow> process_notes handle directory_path ns cs')"

definition process_deck ::
  "anki \<Rightarrow> (ustring \<Rightarrow> ustring) \<Rightarrow> ustring \<Rightarrow> state \<Rightarrow> error \<times> state + state" where
  "process_deck env handle deck_name st0 =
     (let st = st0\<lparr>out := out st0 @ [Processing_deck deck_name]\<rparr>
      in case get_notes_in_deck env deck_name of
           Inl e \<Rightarrow> Inl (e, st)
         | Inr notes \<Rightarrow>
             if notes = [] then Inr (st\<lparr>out := out st @ [No_notes_found deck_name]\<rparr>)
             else
               let directory_path = deck_directory deck_name;
                   st = st\<lparr>dirs := dirs st @ [directory_path]\<rparr>
               in case process_notes handle directory_path notes (Map.empty, st) of
                    Inl failure \<Rightarrow> Inl failure
                  | Inr (title_counts, st') \<Rightarrow> Inr st')"

fun process_decks ::
  "anki \<Rightarrow> (ustring \<Rightarrow> ustring) \<Rightarrow> ustring list \<Rightarrow> state \<Rightarrow> error \<times> state + state" where
  "process_decks env handle [] st = Inr st"
| "process_decks env handle (deck_name # rest) st =
     (case process_deck env handle deck_name st of
        Inl failure \<Rightarrow> Inl failure
      | Inr st' \<Rightarrow> process_decks env handle rest st')"

definition initial_state :: state where
  "initial_state = \<lparr>title = None, dirs = [], files = [], out = []\<rparr>"

definition main :: "anki \<Rightarrow> (ustring \<Rightarrow> ustring) \<Rightarrow> state" where
  "main env handle =
     (case get_deck_names env of
        Inl e \<Rightarrow> initial_state\<lparr>out := [Error e]\<rparr>
      | Inr deck_names \<Rightarrow>
          if deck_names = [] then initial_state\<lparr>out := [No_decks_found]\<rparr>
          else
            let st = initial_state\<lparr>dirs := [output_dir]\<rparr>
            in case process_decks env handle deck_names st of
                 Inl (e, st') \<Rightarrow> st'\<lparr>out := out st' @ [Error e]\<rparr>
               | Inr st' \<Rightarrow> st')"

text \<open>
  Names for what the loop body derives from one note: the base of its file name, its
  body, the file name for a base at a given count, and the text written for a title.
\<close>

definition derived_base :: "(ustring \<Rightarrow> ustring) \<Rightarrow> note_info \<Rightarrow> ustring" where
  "derived_base handle n =
     sanitize_filename
       (if field_value n ''Front'' \<noteq> []
        then truncate_title (clean_field handle (Some (field_value n ''Front''))) 200
        else ustr ''Note_'' @ str_note_id (noteId n))"

definition note_content :: "(ustring \<Rightarrow> ustring) \<Rightarrow> note_info \<Rightarrow> ustring" where
  "note_content handle n =
     (if field_value n ''Back'' \<noteq> []
      then clean_field handle (Some (field_value n ''Back'')) else [])"

definition numbered_filename :: "ustring \<Rightarrow> nat \<Rightarrow> ustring" where
  "numbered_filename base k =
     (if k > 0 then base @ ustr ''_'' @ str_nat k @ ustr ''.md'' else base @ ustr ''.md'')"

definition file_text :: "ustring \<Rightarrow> ustring \<Rightarrow> ustring" where
  "file_text heading content = ustr ''# '' @ heading @ [10, 10] @ content @ [10]"

text \<open>The state a failed or completed step leaves behind.\<close>

definition state_of :: "error \<times> state + state \<Rightarrow> state" where
  "state_of r = (case r of Inl (e, st) \<Rightarrow> st | Inr st \<Rightarrow> st)"

subsection \<open>Example inputs\<close>

text \<open>
  An endpoint with a single deck that answers every request with status 200 and a null
  error, a converter that behaves as \<^verbatim>\<open>html2text\<close> does on text without markup (the text,
  then two line feeds), and a note with only a Front field.
\<close>

definition ok :: "'a \<Rightarrow> 'a post_outcome" where
  "ok r = Returned 200 (Object \<lparr>error_field = Some JNull, result_field = Some r\<rparr>)"

definition one_deck :: "ustring \<Rightarrow> note_info list \<Rightarrow> anki" where
  "one_deck name ns =
     \<lparr>post_deckNames = (\<lambda>_. ok [name]),
      post_findNotes = (\<lambda>_. ok (map (\<lambda>n. case noteId n of None \<Rightarrow> 0 | Some i \<Rightarrow> i) ns)),
      post_notesInfo = (\<lambda>_. ok ns)\<rparr>"

definition plain_text :: "ustring \<Rightarrow> ustring" where
  "plain_text s = s @ [10, 10]"

definition front_note :: "int \<Rightarrow> string \<Rightarrow> note_info" where
  "front_note i f = \<lparr>noteId = Some i, note_fields = [(''Front'', [(''value'', ustr f)])]\<rparr>"

section \<open>Properties\<close>

subsection \<open>sanitize_filename\<close>

lemma adjacent_underscores_nth:
  "adjacent_underscores s \<longleftrightarrow>
     (\<exists>i. Suc i < length s \<and> s ! i = underscore \<and> s ! Suc i = underscore)"
proof (induction s rule: adjacent_underscores.induct)
  case (1 c d cs)
  have "(\<exists>i. Suc i < length (c # d # cs) \<and> (c # d # cs) ! i = underscore
            \<and> (c # d # cs) ! Suc i = underscore)
        \<longleftrightarrow> (c = underscore \<and> d = underscore) \<or>
            (\<exists>j. Suc j < length (d # cs) \<and> (d # cs) ! j = underscore
                \<and> (d # cs) ! Suc j = underscore)"
    (is "?L \<longleftrightarrow> ?A \<or> ?R")
  proof
    assume ?L
    then obtain i where i: "Suc i < length (c # d # cs)" "(c # d # cs) ! i = underscore"
      "(c # d # cs) ! Suc i = underscore" by blast
    show "?A \<or> ?R"
    proof (cases i)
      case 0
      with i show ?thesis by simp
    next
      case (Suc j)
      with i have "Suc j < length (d # cs) \<and> (d # cs) ! j = underscore
          \<and> (d # cs) ! Suc j = underscore" by simp
      then show ?thesis by blast
    qed
  next
    assume "?A \<or> ?R"
    then show ?L
    proof
      assume ?A
      then have "Suc 0 < length (c # d # cs) \<and> (c # d # cs) ! 0 = underscore
          \<and> (c # d # cs) ! Suc 0 = underscore" by simp
      then show ?L by blast
    next
      assume ?R
      then obtain j where "Suc j < length (d # cs)" "(d # cs) ! j = underscore"
        "(d # cs) ! Suc j = underscore" by blast
      then have "Suc (Suc j) < length (c # d # cs) \<and> (c # d # cs) ! Suc j = underscore
          \<and> (c # d # cs) ! Suc (Suc j) = underscore" by simp
      then show ?L by blast
    qed
  qed
  with 1 show ?case by simp
qed simp_all

lemma adjacent_underscores_Cons:
  "adjacent_underscores t \<Longrightarrow> adjacent_underscores (x # t)"
  by (cases t) auto

lemma adjacent_underscores_prepend:
  "adjacent_underscores t \<Longrightarrow> adjacent_underscores (xs @ t)"
  by (induction xs) (auto intro: adjacent_underscores_Cons)

lemma adjacent_underscores_append:
  "adjacent_underscores t \<Longrightarrow> adjacent_underscores (t @ ys)"
  by (induction t rule: adjacent_underscores.induct) auto

lemma adjacent_underscores_dropWhile:
  "adjacent_underscores (dropWhile P s) \<Longrightarrow> adjacent_underscores s"
  using adjacent_underscores_prepend [of "dropWhile P s" "takeWhile P s"] by simp

lemma strip_decomp:
  "s = takeWhile P s @ py_strip_chars P s @ rev (takeWhile P (rev (dropWhile P s)))"
proof -
  let ?r = "rev (dropWhile P s)"
  have "rev (takeWhile P ?r @ dropWhile P ?r) = rev ?r"
    by (simp only: takeWhile_dropWhile_id)
  then have "dropWhile P s = py_strip_chars P s @ rev (takeWhile P ?r)"
    by (simp only: rev_append rev_rev_ident py_strip_chars_def)
  then show ?thesis
    by (metis takeWhile_dropWhile_id)
qed

lemma adjacent_underscores_strip:
  "adjacent_underscores (py_strip_chars P s) \<Longrightarrow> adjacent_underscores s"
  using strip_decomp [of s P] adjacent_underscores_prepend adjacent_underscores_append
  by metis

lemma set_strip: "set (py_strip_chars P s) \<subseteq> set s"
  using strip_decomp [of s P] by (metis Un_upper1 Un_upper2 set_append subset_trans)

lemma hd_strip: "py_strip_chars P s \<noteq> [] \<Longrightarrow> \<not> P (hd (py_strip_chars P s))"
proof -
  assume ne: "py_strip_chars P s \<noteq> []"
  let ?d = "dropWhile P s"
  have d: "?d = py_strip_chars P s @ rev (takeWhile P (rev ?d))"
    using strip_decomp [of s P] by (metis same_append_eq takeWhile_dropWhile_id)
  then have "hd ?d = hd (py_strip_chars P s)" using ne by (metis hd_append2)
  moreover have "?d \<noteq> []"
  proof
    assume "?d = []"
    then have "py_strip_chars P s = []"
      unfolding py_strip_chars_def by (simp del: dropWhile_eq_Nil_conv)
    with ne show False by simp
  qed
  ultimately show ?thesis using hd_dropWhile [of P s] by simp
qed

lemma last_strip: "py_strip_chars P s \<noteq> [] \<Longrightarrow> \<not> P (last (py_strip_chars P s))"
proof -
  assume ne: "py_strip_chars P s \<noteq> []"
  let ?r = "dropWhile P (rev (dropWhile P s))"
  have "?r \<noteq> []" using ne by (simp add: py_strip_chars_def)
  then have "\<not> P (hd ?r)" by (rule hd_dropWhile)
  moreover have "last (py_strip_chars P s) = hd ?r"
    using \<open>?r \<noteq> []\<close> by (simp add: py_strip_chars_def last_rev)
  ultimately show ?thesis by simp
qed

lemma re_sub_hd: "re_sub_underscores (c # cs) = c # tl (re_sub_underscores (c # cs))"
  by simp

lemma re_sub_not_adjacent: "\<not> adjacent_underscores (re_sub_underscores s)"
proof (induction s rule: re_sub_underscores.induct)
  case 1
  show ?case by simp
next
  case (2 c cs)
  show ?case
  proof (cases "c = underscore")
    case True
    let ?d = "dropWhile (\<lambda>x. x = underscore) cs"
    have ih: "\<not> adjacent_underscores (re_sub_underscores ?d)" using 2(1) True by simp
    have eq: "re_sub_underscores (c # cs) = underscore # re_sub_underscores ?d"
      using True by simp
    have "re_sub_underscores ?d = [] \<or> hd (re_sub_underscores ?d) \<noteq> underscore"
    proof (cases ?d)
      case Nil
      then show ?thesis by (simp del: dropWhile_eq_Nil_conv)
    next
      case (Cons e es)
      have "?d \<noteq> []" using Cons by (simp only: list.distinct not_False_eq_True)
      then have "hd ?d \<noteq> underscore" by (rule hd_dropWhile)
      then have "e \<noteq> underscore" by (metis Cons list.sel(1))
      then have "hd (re_sub_underscores (e # es)) \<noteq> underscore" by simp
      then show ?thesis unfolding Cons by blast
    qed
    then have "\<not> adjacent_underscores (underscore # re_sub_underscores ?d)"
      using ih by (cases "re_sub_underscores ?d") auto
    then show ?thesis unfolding eq .
  next
    case False
    with 2(2) show ?thesis by (cases "re_sub_underscores cs") auto
  qed
qed

lemma set_re_sub: "set (re_sub_underscores s) \<subseteq> set s"
proof (induction s rule: re_sub_underscores.induct)
  case 1
  show ?case by simp
next
  case (2 c cs)
  have "set (dropWhile (\<lambda>x. x = underscore) cs) \<subseteq> set cs"
    by (auto dest: set_dropWhileD)
  with 2 show ?case by auto
qed


lemma allowed_underscore: "allowed_char underscore"
  by (simp add: allowed_char_def underscore_def)

lemma not_allowed_space: "\<not> allowed_char space"
  by (simp add: allowed_char_def space_def)

lemma sanitize_pre_allowed: "c \<in> set (sanitize_pre s) \<Longrightarrow> allowed_char c"
proof -
  assume "c \<in> set (sanitize_pre s)"
  then have "c \<in> set (map (\<lambda>c. if allowed_char c then c else underscore)
      (py_replace space underscore s))"
    using set_strip set_re_sub unfolding sanitize_pre_def Let_def by blast
  then show ?thesis by (auto simp: allowed_underscore)
qed

lemma sanitize_pre_not_adjacent: "\<not> adjacent_underscores (sanitize_pre s)"
  unfolding sanitize_pre_def Let_def
  using adjacent_underscores_strip re_sub_not_adjacent by blast

lemma sanitize_pre_hd: "sanitize_pre s \<noteq> [] \<Longrightarrow> hd (sanitize_pre s) \<noteq> underscore"
  unfolding sanitize_pre_def Let_def by (rule hd_strip)

lemma sanitize_pre_last: "sanitize_pre s \<noteq> [] \<Longrightarrow> last (sanitize_pre s) \<noteq> underscore"
  unfolding sanitize_pre_def Let_def by (rule last_strip)

lemma wellformed_unnamed: "wellformed_name (ustr ''unnamed'')"
  by (simp add: wellformed_name_def ustr_def allowed_char_def underscore_def)

lemma sanitize_filename_wellformed_name: "wellformed_name (sanitize_filename s)"
proof (cases "sanitize_pre s = []")
  case True
  then show ?thesis by (simp add: sanitize_filename_def wellformed_unnamed)
next
  case False
  then show ?thesis
    using sanitize_pre_allowed [of _ s] sanitize_pre_not_adjacent [of s]
      sanitize_pre_hd [of s] sanitize_pre_last [of s]
    by (simp add: sanitize_filename_def wellformed_name_def list_all_iff)
qed

lemma re_sub_fixed: "\<not> adjacent_underscores s \<Longrightarrow> re_sub_underscores s = s"
proof (induction s rule: re_sub_underscores.induct)
  case 1
  show ?case by simp
next
  case (2 c cs)
  have na: "\<not> adjacent_underscores cs"
    using 2(3) adjacent_underscores_Cons by blast
  show ?case
  proof (cases "c = underscore")
    case True
    have "dropWhile (\<lambda>x. x = underscore) cs = cs"
      using 2(3) True by (cases cs) auto
    with 2(1) True na show ?thesis by simp
  next
    case False
    with 2(2) na show ?thesis by simp
  qed
qed

lemma dropWhile_fixed: "xs \<noteq> [] \<Longrightarrow> \<not> P (hd xs) \<Longrightarrow> dropWhile P xs = xs"
  by (cases xs) auto

lemma strip_fixed:
  "r \<noteq> [] \<Longrightarrow> \<not> P (hd r) \<Longrightarrow> \<not> P (last r) \<Longrightarrow> py_strip_chars P r = r"
proof -
  assume r: "r \<noteq> []" and h: "\<not> P (hd r)" and l: "\<not> P (last r)"
  have 1: "dropWhile P r = r" using r h by (rule dropWhile_fixed)
  have "hd (rev r) = last r" using r by (simp add: hd_rev)
  then have 2: "dropWhile P (rev r) = rev r" using r l by (intro dropWhile_fixed) auto
  show ?thesis by (simp add: py_strip_chars_def 1 2)
qed

lemma sanitize_filename_fixed: "wellformed_name r \<Longrightarrow> sanitize_filename r = r"
proof -
  assume w: "wellformed_name r"
  then have al: "\<forall>c \<in> set r. allowed_char c"
    by (simp add: wellformed_name_def list_all_iff)
  then have "space \<notin> set r" using not_allowed_space by blast
  then have 1: "py_replace space underscore r = r"
    unfolding py_replace_def by (intro map_idI) auto
  have 2: "map (\<lambda>c. if allowed_char c then c else underscore) r = r"
    using al by (intro map_idI) auto
  have 3: "re_sub_underscores r = r"
    using w by (simp add: wellformed_name_def re_sub_fixed)
  have 4: "py_strip_chars (\<lambda>c. c = underscore) r = r"
    using w by (simp add: wellformed_name_def strip_fixed)
  have "sanitize_pre r = r" by (simp add: sanitize_pre_def 1 2 3 4)
  moreover have "r \<noteq> []" using w by (simp add: wellformed_name_def)
  ultimately show ?thesis by (simp add: sanitize_filename_def)
qed

text \<open>
  Claim C4. For every input string, the output of \<open>sanitize_filename\<close> contains only
  characters of the allow-list, has no two consecutive underscores, neither starts nor
  ends with an underscore, and is not empty; where the sanitized text would be empty,
  the placeholder \<^verbatim>\<open>unnamed\<close> is returned.
\<close>

theorem sanitize_filename_output:
  "list_all allowed_char (sanitize_filename s) \<and>
   \<not> (\<exists>i. Suc i < length (sanitize_filename s) \<and>
          sanitize_filename s ! i = underscore \<and>
          sanitize_filename s ! Suc i = underscore) \<and>
   sanitize_filename s \<noteq> [] \<and>
   hd (sanitize_filename s) \<noteq> underscore \<and>
   last (sanitize_filename s) \<noteq> underscore \<and>
   (sanitize_pre s = [] \<longrightarrow> sanitize_filename s = ustr ''unnamed'')"
  using sanitize_filename_wellformed_name [of s]
  by (simp add: wellformed_name_def adjacent_underscores_nth sanitize_filename_def)

text \<open>The theorem at an input that sanitizes to nothing, and at one that does not.\<close>

theorem sanitize_filename_output_witness:
  "sanitize_pre (ustr '' !? '') = [] \<and>
   sanitize_filename (ustr '' !? '') = ustr ''unnamed'' \<and>
   list_all allowed_char (sanitize_filename (ustr ''a  b!'')) \<and>
   sanitize_filename (ustr ''a  b!'') = ustr ''a_b''"
  using sanitize_filename_output [of "ustr '' !? ''"] sanitize_filename_output [of "ustr ''a  b!''"]
  by (simp add: sanitize_filename_def sanitize_pre_def py_replace_def py_strip_chars_def
      ustr_def space_def underscore_def allowed_char_def)

text \<open>
  Claim C10. \<open>sanitize_filename\<close> is idempotent: sanitizing a sanitized name returns it
  unchanged.
\<close>

theorem sanitize_filename_idempotent:
  "sanitize_filename (sanitize_filename s) = sanitize_filename s"
  by (rule sanitize_filename_fixed) (rule sanitize_filename_wellformed_name)

subsection \<open>truncate_title\<close>

lemma py_slice_to_prefix: "prefix (py_slice_to s k) s"
  by (simp add: py_slice_to_def take_is_prefix)

lemma length_py_slice_to:
  "0 \<le> k \<Longrightarrow> length (py_slice_to s k) = min (nat k) (length s)"
  by (simp add: py_slice_to_def py_clamp_index_def)

lemma py_rfind_found:
  assumes "py_rfind c s 0 m \<noteq> - 1" and "0 \<le> m"
  shows "0 \<le> py_rfind c s 0 m \<and> py_rfind c s 0 m < m"
proof -
  let ?hi = "py_clamp_index (length s) m"
  let ?hits = "filter (\<lambda>i. s ! i = c) [0..<?hi]"
  have lo: "py_clamp_index (length s) 0 = 0" by (simp add: py_clamp_index_def)
  have ne: "?hits \<noteq> []" using assms(1) by (auto simp: py_rfind_def Let_def lo split: if_splits)
  then have eq: "py_rfind c s 0 m = int (last ?hits)" by (simp add: py_rfind_def Let_def lo)
  have "last ?hits \<in> set ?hits" using ne by (rule last_in_set)
  then have "last ?hits < ?hi" by simp
  moreover have "?hi \<le> nat m" using assms(2) by (simp add: py_clamp_index_def)
  ultimately show ?thesis using eq assms(2) by linarith
qed

lemma py_rfind_absent:
  assumes "0 \<le> m" and "c \<notin> set (take (nat m) s)"
  shows "py_rfind c s 0 m = - 1"
proof -
  let ?hi = "py_clamp_index (length s) m"
  have lo: "py_clamp_index (length s) 0 = 0" by (simp add: py_clamp_index_def)
  have hi: "?hi = min (nat m) (length s)" using assms(1) by (simp add: py_clamp_index_def)
  have "filter (\<lambda>i. s ! i = c) [0..<?hi] = []"
  proof (rule filter_False, rule ballI)
    fix i assume "i \<in> set [0..<?hi]"
    then have i: "i < nat m" "i < length s" using hi by auto
    then have "take (nat m) s ! i = s ! i" by simp
    moreover have "take (nat m) s ! i \<in> set (take (nat m) s)" using i by (intro nth_mem) simp
    ultimately show "\<not> s ! i = c" using assms(2) by metis
  qed
  then show ?thesis by (simp add: py_rfind_def Let_def lo)
qed

text \<open>
  The function on every Python int: the output is always a prefix of the input, and
  for a \<open>max_length\<close> that is not negative its length is bounded as the docstring says.
\<close>

lemma truncate_title_int:
  "prefix (truncate_title s max_length) s \<and>
   (0 \<le> max_length \<longrightarrow> int (length (truncate_title s max_length)) \<le> max_length) \<and>
   (0 \<le> max_length \<and> max_length < int (length s) \<and>
      space \<notin> set (take (nat max_length) s)
    \<longrightarrow> int (length (truncate_title s max_length)) = max_length)"
proof (intro conjI impI)
  show "prefix (truncate_title s max_length) s"
    by (simp add: truncate_title_def Let_def py_slice_to_prefix)
next
  assume m: "0 \<le> max_length"
  show "int (length (truncate_title s max_length)) \<le> max_length"
  proof (cases "int (length s) \<le> max_length")
    case True
    then show ?thesis by (simp add: truncate_title_def)
  next
    case long: False
    show ?thesis
    proof (cases "py_rfind space s 0 max_length = - 1")
      case True
      then have "truncate_title s max_length = py_slice_to s max_length"
        using long by (simp add: truncate_title_def)
      then show ?thesis using m by (simp add: length_py_slice_to)
    next
      case False
      then have eq: "truncate_title s max_length =
          py_slice_to s (py_rfind space s 0 max_length)"
        using long by (simp add: truncate_title_def Let_def)
      have b: "0 \<le> py_rfind space s 0 max_length \<and> py_rfind space s 0 max_length < max_length"
        using False m by (rule py_rfind_found)
      then have "length (py_slice_to s (py_rfind space s 0 max_length)) =
          min (nat (py_rfind space s 0 max_length)) (length s)"
        by (simp add: length_py_slice_to)
      with b show ?thesis unfolding eq by linarith
    qed
  qed
next
  assume a: "0 \<le> max_length \<and> max_length < int (length s) \<and>
      space \<notin> set (take (nat max_length) s)"
  then have "py_rfind space s 0 max_length = - 1" by (simp add: py_rfind_absent)
  then have tt: "truncate_title s max_length = py_slice_to s max_length"
    using a by (simp add: truncate_title_def)
  have "nat max_length \<le> length s" using a by linarith
  then have "length (py_slice_to s max_length) = nat max_length"
    using a by (simp add: length_py_slice_to)
  then show "int (length (truncate_title s max_length)) = max_length"
    unfolding tt using a by simp
qed

text \<open>
  Claim C5. For every string and every maximum length, the output of
  \<open>truncate_title\<close> is a prefix of the input and its length is at most the maximum
  length; where the input is longer than the maximum length and has no space before
  the cut point, the length of the output is exactly the maximum length.
\<close>

theorem truncate_title_prefix_bound:
  "prefix (truncate_title s (int max_length)) s \<and>
   length (truncate_title s (int max_length)) \<le> max_length \<and>
   (max_length < length s \<and> space \<notin> set (take max_length s)
    \<longrightarrow> length (truncate_title s (int max_length)) = max_length)"
  using truncate_title_int [of s "int max_length"] by simp

text \<open>A cut at a space, and a hard cut where there is no space.\<close>

theorem truncate_title_prefix_bound_witness:
  "truncate_title (ustr ''hello world foo'') (int 11) = ustr ''hello'' \<and>
   length (truncate_title (ustr ''hello world foo'') (int 11)) \<le> 11 \<and>
   10 > (3 :: nat) \<and> space \<notin> set (take 3 (ustr ''helloworld'')) \<and>
   length (truncate_title (ustr ''helloworld'') (int 3)) = 3"
  using truncate_title_prefix_bound [of "ustr ''hello world foo''" 11]
    truncate_title_prefix_bound [of "ustr ''helloworld''" 3]
  by (simp add: truncate_title_def py_rfind_def py_slice_to_def py_clamp_index_def
      ustr_def space_def Let_def)

subsection \<open>clean_field\<close>

lemma strip_all_stripped: "list_all P s \<Longrightarrow> py_strip_chars P s = []"
proof -
  assume "list_all P s"
  then have "dropWhile P s = []" by (simp add: list_all_iff)
  then show ?thesis by (simp add: py_strip_chars_def del: dropWhile_eq_Nil_conv)
qed

lemma strip_empty_iff: "py_strip_chars P s = [] \<longleftrightarrow> list_all P s"
proof
  assume e: "py_strip_chars P s = []"
  have "s = takeWhile P s @ py_strip_chars P s @ rev (takeWhile P (rev (dropWhile P s)))"
    by (rule strip_decomp)
  then have s: "s = takeWhile P s @ rev (takeWhile P (rev (dropWhile P s)))"
    using e by simp
  have "\<forall>x \<in> set (takeWhile P s). P x" by (auto dest: set_takeWhileD)
  moreover have "\<forall>x \<in> set (rev (takeWhile P (rev (dropWhile P s)))). P x"
    by (auto dest: set_takeWhileD)
  ultimately have "\<forall>x \<in> set (takeWhile P s @ rev (takeWhile P (rev (dropWhile P s)))). P x"
    by auto
  then have "\<forall>x \<in> set s. P x" using s by metis
  then show "list_all P s" by (simp add: list_all_iff)
qed (rule strip_all_stripped)

text \<open>
  What \<open>clean_field\<close> returns on the empty string is what \<^verbatim>\<open>strip\<close> leaves of the
  converter's output for the empty document: it is empty exactly when that output is
  white space.
\<close>

lemma clean_field_empty_iff:
  "clean_field handle (Some []) = [] \<longleftrightarrow> list_all py_isspace (handle [])"
  by (simp add: clean_field_def py_strip_def strip_empty_iff)

text \<open>
  Claim C9. \<open>clean_field\<close> applied to the empty string and applied to the absent value
  \<^verbatim>\<open>None\<close> both return the empty string. For \<^verbatim>\<open>None\<close> the source returns before it
  touches the converter; for the empty string the result is the stripped output of
  \<^verbatim>\<open>html2text\<close>, which renders the empty document as white space (a line feed).
\<close>

theorem clean_field_empty:
  "list_all py_isspace (handle []) \<Longrightarrow>
   clean_field handle (Some []) = [] \<and> clean_field handle None = []"
  by (simp add: clean_field_def py_strip_def strip_all_stripped)

text \<open>The theorem with a converter that answers the empty document with a line feed.\<close>

theorem clean_field_empty_witness:
  "list_all py_isspace [10] \<and>
   clean_field (\<lambda>html. if html = [] then [10] else html @ [10, 10]) (Some []) = [] \<and>
   clean_field (\<lambda>html. if html = [] then [10] else html @ [10, 10]) None = []"
  using clean_field_empty [of "\<lambda>html. if html = [] then [10] else html @ [10, 10]"]
  by (simp add: py_isspace_def)

subsection \<open>anki_connect\<close>

lemma anki_connect_raised:
  "post \<lparr>action = act, version = 6, params = ps\<rparr> = Raised e \<Longrightarrow>
   anki_connect post act ps = Inl (Exception (Failed_to_connect e))"
  by (simp add: anki_connect_def)

lemma anki_connect_rejected:
  "post \<lparr>action = act, version = 6, params = ps\<rparr> = Returned status content \<Longrightarrow>
   400 \<le> status \<and> status < 600 \<Longrightarrow>
   anki_connect post act ps = Inl (Exception (Failed_to_connect (HTTPError status)))"
  by (simp add: anki_connect_def raise_for_status_def)

lemma anki_connect_not_json:
  "post \<lparr>action = act, version = 6, params = ps\<rparr> = Returned status Not_json \<Longrightarrow>
   \<not> (400 \<le> status \<and> status < 600) \<Longrightarrow>
   anki_connect post act ps = Inl (Exception (Failed_to_connect JSONDecodeError))"
  by (simp add: anki_connect_def raise_for_status_def response_json_def)

lemma anki_connect_not_an_object:
  "post \<lparr>action = act, version = 6, params = ps\<rparr> = Returned status Not_an_object \<Longrightarrow>
   \<not> (400 \<le> status \<and> status < 600) \<Longrightarrow>
   anki_connect post act ps = Inl (AttributeError ''get'')"
  by (simp add: anki_connect_def raise_for_status_def response_json_def)

lemma anki_connect_object:
  "post \<lparr>action = act, version = 6, params = ps\<rparr> = Returned status (Object result) \<Longrightarrow>
   \<not> (400 \<le> status \<and> status < 600) \<Longrightarrow>
   anki_connect post act ps =
     (if truthy (case error_field result of None \<Rightarrow> JNull | Some e \<Rightarrow> e)
      then Inl (Exception (AnkiConnect_error
             (case error_field result of None \<Rightarrow> JNull | Some e \<Rightarrow> e)))
      else case result_field result of None \<Rightarrow> Inl (KeyError ''result'') | Some r \<Rightarrow> Inr r)"
  by (auto simp: anki_connect_def raise_for_status_def response_json_def Let_def)

text \<open>
  Claim C3, amended. \<open>anki_connect\<close> raises its one failure kind, a plain
  \<^verbatim>\<open>Exception\<close>, if and only if the transport fails (the request raises, the status is
  one \<^verbatim>\<open>raise_for_status\<close> rejects, or the body is not JSON) or the decoded response
  object carries an error entry that is true in Python's sense (present and not null,
  false, zero or empty); otherwise, when the response is an object with a result entry,
  the call returns it.
\<close>

theorem anki_connect_outcome:
  "((\<exists>m. anki_connect post act ps = Inl (Exception m)) \<longleftrightarrow>
      transport_fails (post \<lparr>action = act, version = 6, params = ps\<rparr>) \<or>
      truthy (error_entry (post \<lparr>action = act, version = 6, params = ps\<rparr>))) \<and>
   (\<not> transport_fails (post \<lparr>action = act, version = 6, params = ps\<rparr>) \<and>
    \<not> truthy (error_entry (post \<lparr>action = act, version = 6, params = ps\<rparr>)) \<and>
    result_entry (post \<lparr>action = act, version = 6, params = ps\<rparr>) = Some r
    \<longrightarrow> anki_connect post act ps = Inr r)"
proof (cases "post \<lparr>action = act, version = 6, params = ps\<rparr>")
  case (Raised e)
  then show ?thesis
    by (simp add: anki_connect_raised transport_fails_def)
next
  case (Returned status content)
  show ?thesis
  proof (cases "400 \<le> status \<and> status < 600")
    case True
    then show ?thesis
      using Returned by (simp add: anki_connect_rejected transport_fails_def)
  next
    case False
    show ?thesis
    proof (cases content)
      case Not_json
      then show ?thesis
        using Returned False
        by (simp add: anki_connect_not_json transport_fails_def)
    next
      case Not_an_object
      then show ?thesis
        using Returned False
        by (simp add: anki_connect_not_an_object transport_fails_def error_entry_def
            result_entry_def)
    next
      case (Object result)
      then show ?thesis
        using Returned False
        by (auto simp: anki_connect_object transport_fails_def error_entry_def
            result_entry_def split: option.splits)
    qed
  qed
qed

text \<open>
  A refused connection, a body that is not JSON, an error reported by the endpoint, and
  a normal answer.
\<close>

theorem anki_connect_outcome_witness:
  "anki_connect (\<lambda>_. Raised (ConnectionError (ustr ''refused''))) ''deckNames'' No_params
     = (Inl (Exception (Failed_to_connect (ConnectionError (ustr ''refused''))))
        :: error + ustring list) \<and>
   anki_connect (\<lambda>_. Returned 200 Not_json) ''deckNames'' No_params
     = (Inl (Exception (Failed_to_connect JSONDecodeError)) :: error + ustring list) \<and>
   anki_connect (\<lambda>_. Returned 200 (Object
       \<lparr>error_field = Some (JString (ustr ''unsupported action'')), result_field = Some []\<rparr>))
     ''deckNames'' No_params
     = (Inl (Exception (AnkiConnect_error (JString (ustr ''unsupported action''))))
        :: error + ustring list) \<and>
   anki_connect (\<lambda>_. Returned 200 (Object
       \<lparr>error_field = Some JNull, result_field = Some [ustr ''Default'']\<rparr>))
     ''deckNames'' No_params = Inr [ustr ''Default'']"
  using
    anki_connect_outcome [of "\<lambda>_. Returned 200 (Object
       \<lparr>error_field = Some JNull, result_field = Some [ustr ''Default'']\<rparr>)"
       "''deckNames''" No_params "[ustr ''Default'']"]
    anki_connect_outcome [of "\<lambda>_. Raised (ConnectionError (ustr ''refused''))"
       "''deckNames''" No_params "[ustr ''Default'']"]
  by (simp add: anki_connect_def raise_for_status_def response_json_def transport_fails_def
      error_entry_def result_entry_def ustr_def)

text \<open>
  The claim as stated has a failure for every error entry that is not null. The source
  tests the truth value of the entry: a response whose error entry is the empty string
  carries a non-null error, and the call returns its result.
\<close>

theorem anki_connect_falsy_error_counterexample:
  "error_entry (Returned 200 (Object
       \<lparr>error_field = Some (JString []), result_field = Some [ustr ''Default'']\<rparr>)) \<noteq> JNull \<and>
   anki_connect (\<lambda>_. Returned 200 (Object
       \<lparr>error_field = Some (JString []), result_field = Some [ustr ''Default'']\<rparr>))
     ''deckNames'' No_params = Inr [ustr ''Default'']"
  by (simp add: anki_connect_def raise_for_status_def response_json_def error_entry_def)

text \<open>
  A response without a result entry: \<^verbatim>\<open>result["result"]\<close> raises \<^verbatim>\<open>KeyError\<close>, which
  the \<^verbatim>\<open>except\<close> clause does not catch.
\<close>

lemma anki_connect_missing_result:
  "anki_connect (\<lambda>_. Returned 200 (Object \<lparr>error_field = Some JNull, result_field = None\<rparr>))
     act ps = Inl (KeyError ''result'')"
  by (simp add: anki_connect_def raise_for_status_def response_json_def)

subsection \<open>The loop over the notes\<close>

lemma next_filename_eq:
  "next_filename title_counts base =
     (numbered_filename base (case title_counts base of None \<Rightarrow> 0 | Some n \<Rightarrow> n),
      title_counts(base \<mapsto> Suc (case title_counts base of None \<Rightarrow> 0 | Some n \<Rightarrow> n)))"
  by (simp add: next_filename_def numbered_filename_def Let_def)

lemma process_note_front:
  assumes "field_value n ''Front'' \<noteq> []"
  shows "process_note handle directory_path n (title_counts, st) =
    Inr (snd (next_filename title_counts (derived_base handle n)),
         st\<lparr>title := Some (clean_field handle (Some (field_value n ''Front''))),
            files := files st @
              [(os_path_join directory_path
                  [fst (next_filename title_counts (derived_base handle n))],
                file_text (clean_field handle (Some (field_value n ''Front'')))
                  (note_content handle n))],
            out := out st @
              [Saved_note (noteId n)
                 (os_path_join directory_path
                    [fst (next_filename title_counts (derived_base handle n))])]\<rparr>)"
  using assms
  by (simp add: process_note_def derived_base_def note_content_def file_text_def Let_def
      split: prod.splits)

lemma process_note_no_front:
  assumes "field_value n ''Front'' = []"
  shows "process_note handle directory_path n (title_counts, st) =
    (case title st of
       None \<Rightarrow>
         Inl (UnboundLocalError ''title'',
              st\<lparr>files := files st @
                [(os_path_join directory_path
                    [fst (next_filename title_counts (derived_base handle n))], [])]\<rparr>)
     | Some t \<Rightarrow>
         Inr (snd (next_filename title_counts (derived_base handle n)),
              st\<lparr>title := Some t,
                 files := files st @
                   [(os_path_join directory_path
                       [fst (next_filename title_counts (derived_base handle n))],
                     file_text t (note_content handle n))],
                 out := out st @
                   [Saved_note (noteId n)
                      (os_path_join directory_path
                         [fst (next_filename title_counts (derived_base handle n))])]\<rparr>))"
  using assms
  by (simp add: process_note_def derived_base_def note_content_def file_text_def Let_def
      split: prod.splits option.splits)

lemma main_one_deck:
  assumes "ns \<noteq> []"
  shows "main (one_deck name ns) handle =
    (case process_notes handle (deck_directory name) ns
            (Map.empty, \<lparr>title = None, dirs = [output_dir, deck_directory name], files = [],
               out = [Processing_deck name]\<rparr>) of
       Inl (e, st') \<Rightarrow> st'\<lparr>out := out st' @ [Error e]\<rparr>
     | Inr (title_counts, st') \<Rightarrow> st')"
  using assms
  by (simp add: main_def one_deck_def ok_def get_deck_names_def get_notes_in_deck_def
      anki_connect_def raise_for_status_def response_json_def process_deck_def
      initial_state_def Let_def
      split: sum.splits prod.splits)

subsection \<open>Evaluating the example runs\<close>

lemma ustr_eq_iff: "ustr s = ustr t \<longleftrightarrow> s = t"
proof -
  have "inj (of_char :: char \<Rightarrow> nat)" by (rule injI) simp
  then show ?thesis unfolding ustr_def by (simp add: inj_map_eq_map)
qed

lemma ustr_Nil_iff: "ustr s = [] \<longleftrightarrow> s = []"
  by (simp add: ustr_def)

lemma front_note_fields:
  "field_value (front_note i f) ''Front'' = ustr f"
  "field_value (front_note i f) ''Back'' = []"
  "noteId (front_note i f) = Some i"
  by (simp_all add: field_value_def front_note_def py_get_def)

lemma no_fields:
  "field_value \<lparr>noteId = i, note_fields = []\<rparr> k = []"
  by (simp add: field_value_def py_get_def)

lemmas eval_defs = ustr_def space_def underscore_def slash_def Let_def

lemma clean_plain:
  "clean_field plain_text (Some (ustr ''a'')) = ustr ''a''"
  "clean_field plain_text (Some (ustr ''a 1'')) = ustr ''a 1''"
  "clean_field plain_text (Some (ustr ''Note 7'')) = ustr ''Note 7''"
  by (simp_all add: clean_field_def py_strip_def py_strip_chars_def py_isspace_def
      plain_text_def eval_defs)

lemma truncate_short:
  "truncate_title (ustr ''a'') 200 = ustr ''a''"
  "truncate_title (ustr ''a 1'') 200 = ustr ''a 1''"
  "truncate_title (ustr ''Note 7'') 200 = ustr ''Note 7''"
  by (simp_all add: truncate_title_def eval_defs)

lemma sanitize_examples:
  "sanitize_filename (ustr ''a'') = ustr ''a''"
  "sanitize_filename (ustr ''a 1'') = ustr ''a_1''"
  "sanitize_filename (ustr ''Note 7'') = ustr ''Note_7''"
  "sanitize_filename (ustr ''Note_'' @ str_note_id (Some 7)) = ustr ''Note_7''"
  "sanitize_filename (ustr ''Note_'' @ str_note_id (Some 42)) = ustr ''Note_42''"
  by (simp_all add: sanitize_filename_def sanitize_pre_def py_replace_def py_strip_chars_def
      allowed_char_def str_note_id_def str_int_def str_nat.simps eval_defs)

lemma derived_base_examples:
  "derived_base plain_text (front_note i ''a'') = ustr ''a''"
  "derived_base plain_text (front_note i ''a 1'') = ustr ''a_1''"
  "derived_base plain_text (front_note i ''Note 7'') = ustr ''Note_7''"
  "derived_base handle \<lparr>noteId = Some 7, note_fields = []\<rparr> = ustr ''Note_7''"
  "derived_base handle \<lparr>noteId = Some 42, note_fields = []\<rparr> = ustr ''Note_42''"
  by (simp_all add: derived_base_def front_note_fields no_fields ustr_Nil_iff clean_plain
      truncate_short sanitize_examples)

lemma note_content_examples:
  "note_content handle (front_note i f) = []"
  "note_content handle \<lparr>noteId = j, note_fields = []\<rparr> = []"
  by (simp_all add: note_content_def front_note_fields no_fields)

lemma numbered_examples:
  "numbered_filename (ustr ''a'') 0 = ustr ''a.md''"
  "numbered_filename (ustr ''a'') (Suc 0) = ustr ''a_1.md''"
  "numbered_filename (ustr ''a_1'') 0 = ustr ''a_1.md''"
  "numbered_filename (ustr ''Note_7'') 0 = ustr ''Note_7.md''"
  "numbered_filename (ustr ''Note_42'') 0 = ustr ''Note_42.md''"
  by (simp_all add: numbered_filename_def str_nat.simps eval_defs)

lemma deck_directory_D: "deck_directory (ustr ''D'') = ustr ''markdown_output/D''"
  by (simp add: deck_directory_def py_split_colons_def output_dir_def sanitize_filename_def
      sanitize_pre_def py_replace_def py_strip_chars_def allowed_char_def eval_defs)

lemma join_examples:
  "os_path_join (ustr ''markdown_output/D'') [ustr ''a.md''] = ustr ''markdown_output/D/a.md''"
  "os_path_join (ustr ''markdown_output/D'') [ustr ''a_1.md''] = ustr ''markdown_output/D/a_1.md''"
  "os_path_join (ustr ''markdown_output/D'') [ustr ''Note_7.md''] =
     ustr ''markdown_output/D/Note_7.md''"
  "os_path_join (ustr ''markdown_output/D'') [ustr ''Note_42.md''] =
     ustr ''markdown_output/D/Note_42.md''"
  by (simp_all add: eval_defs)

lemmas run_simps = main_one_deck process_note_front process_note_no_front next_filename_eq
  front_note_fields no_fields ustr_Nil_iff ustr_eq_iff clean_plain derived_base_examples
  note_content_examples numbered_examples deck_directory_D join_examples

text \<open>
  Claim C2. The file names written into one deck's directory are meant to be free of
  duplicates. The counter is kept per base name, so a numbered name can meet the
  unnumbered name of another base: for the titles \<^verbatim>\<open>a\<close>, \<^verbatim>\<open>a\<close>, \<^verbatim>\<open>a 1\<close> the second
  note gets \<^verbatim>\<open>a_1.md\<close> (base \<^verbatim>\<open>a\<close>, count 1) and the third gets \<^verbatim>\<open>a_1.md\<close> as well
  (base \<^verbatim>\<open>a_1\<close>, count 0), and the third file overwrites the second.
\<close>

theorem colliding_filenames:
  "files (main (one_deck (ustr ''D'')
            [front_note 1 ''a'', front_note 2 ''a'', front_note 3 ''a 1'']) plain_text) =
     [(ustr ''markdown_output/D/a.md'', file_text (ustr ''a'') []),
      (ustr ''markdown_output/D/a_1.md'', file_text (ustr ''a'') []),
      (ustr ''markdown_output/D/a_1.md'', file_text (ustr ''a 1'') [])] \<and>
   \<not> distinct (map fst (files (main (one_deck (ustr ''D'')
            [front_note 1 ''a'', front_note 2 ''a'', front_note 3 ''a 1'']) plain_text)))"
  by (simp add: run_simps del: os_path_join.simps)

text \<open>
  Claim C1. The heading of a note without a Front is meant to be the fallback
  \<^verbatim>\<open>Note_<id>\<close>. The branch for an empty Front assigns \<^verbatim>\<open>truncated_title\<close> only, and
  the file is written from \<^verbatim>\<open>title\<close>. Where the first note of a run has no Front, the
  file \<^verbatim>\<open>Note_42.md\<close> is created empty and the run ends with \<^verbatim>\<open>UnboundLocalError\<close>;
  where a note with a Front came before, the file of the note without one carries that
  earlier note's heading.
\<close>

theorem missing_front_heading:
  "main (one_deck (ustr ''D'') [\<lparr>noteId = Some 42, note_fields = []\<rparr>]) handle =
     \<lparr>title = None,
      dirs = [output_dir, ustr ''markdown_output/D''],
      files = [(ustr ''markdown_output/D/Note_42.md'', [])],
      out = [Processing_deck (ustr ''D''), Error (UnboundLocalError ''title'')]\<rparr> \<and>
   files (main (one_deck (ustr ''D'')
            [front_note 1 ''a'', \<lparr>noteId = Some 42, note_fields = []\<rparr>]) plain_text) =
     [(ustr ''markdown_output/D/a.md'', file_text (ustr ''a'') []),
      (ustr ''markdown_output/D/Note_42.md'', file_text (ustr ''a'') [])]"
  by (simp add: run_simps del: os_path_join.simps)

text \<open>
  Claim C6. A deck of two notes with the same derived base \<^verbatim>\<open>Note_7\<close> is meant to give
  \<^verbatim>\<open>Note_7.md\<close> and \<^verbatim>\<open>Note_7_1.md\<close>. Where the first of them has no Front and no note
  came before it, the run ends at the first note, for the reason shown under claim C1:
  \<^verbatim>\<open>Note_7.md\<close> is created empty and the second note is never given a name.
\<close>

theorem same_base_after_missing_front:
  "derived_base plain_text \<lparr>noteId = Some 7, note_fields = []\<rparr> = ustr ''Note_7'' \<and>
   derived_base plain_text (front_note 8 ''Note 7'') = ustr ''Note_7'' \<and>
   main (one_deck (ustr ''D'')
      [\<lparr>noteId = Some 7, note_fields = []\<rparr>, front_note 8 ''Note 7'']) plain_text =
     \<lparr>title = None,
      dirs = [output_dir, ustr ''markdown_output/D''],
      files = [(ustr ''markdown_output/D/Note_7.md'', [])],
      out = [Processing_deck (ustr ''D''), Error (UnboundLocalError ''title'')]\<rparr>"
  by (simp add: run_simps del: os_path_join.simps)

subsection \<open>Decks\<close>

text \<open>
  Claim C8. If the source client returns an empty deck list, the run prints the notice
  that no decks were found and nothing else, creates no directory and writes no file.
\<close>

theorem main_no_decks:
  "get_deck_names env = Inr [] \<Longrightarrow>
   out (main env handle) = [No_decks_found] \<and>
   dirs (main env handle) = [] \<and> files (main env handle) = []"
  by (simp add: main_def initial_state_def)

text \<open>
  An endpoint that has no decks.
\<close>

theorem main_no_decks_witness:
  "get_deck_names \<lparr>post_deckNames = (\<lambda>_. ok []), post_findNotes = (\<lambda>_. ok []),
      post_notesInfo = (\<lambda>_. ok [])\<rparr> = Inr [] \<and>
   out (main \<lparr>post_deckNames = (\<lambda>_. ok []), post_findNotes = (\<lambda>_. ok []),
      post_notesInfo = (\<lambda>_. ok [])\<rparr> plain_text) = [No_decks_found]"
  using main_no_decks [of "\<lparr>post_deckNames = (\<lambda>_. ok []), post_findNotes = (\<lambda>_. ok []),
      post_notesInfo = (\<lambda>_. ok [])\<rparr>" plain_text]
  by (simp add: get_deck_names_def anki_connect_def ok_def raise_for_status_def
      response_json_def)

lemma process_note_dirs:
  "(process_note handle d n (c, st) = Inl (e, st') \<longrightarrow> dirs st' = dirs st) \<and>
   (process_note handle d n (c, st) = Inr (c', st') \<longrightarrow> dirs st' = dirs st)"
  by (cases "field_value n ''Front'' = []")
     (auto simp: process_note_front process_note_no_front split: option.splits)

lemma process_notes_dirs:
  "(process_notes handle d ns (c, st) = Inl (e, st') \<longrightarrow> dirs st' = dirs st) \<and>
   (process_notes handle d ns (c, st) = Inr (c', st') \<longrightarrow> dirs st' = dirs st)"
proof (induction ns arbitrary: c st)
  case Nil
  show ?case by simp
next
  case (Cons n ns)
  show ?case
  proof (cases "process_note handle d n (c, st)")
    case (Inl failure)
    obtain e1 st1 where f: "failure = (e1, st1)" by (cases failure)
    have "dirs st1 = dirs st"
      using Inl f process_note_dirs [of handle d n c st e1 st1] by blast
    then show ?thesis using Inl f by auto
  next
    case (Inr cs)
    obtain c1 st1 where cs: "cs = (c1, st1)" by (cases cs)
    have "dirs st1 = dirs st"
      using Inr cs process_note_dirs [of handle d n c st _ st1 c1] by blast
    then show ?thesis using Inr cs Cons.IH [of c1 st1] by simp
  qed
qed

lemma os_path_join_segments:
  "path \<noteq> [] \<Longrightarrow> last path \<noteq> slash \<Longrightarrow>
   \<forall>b \<in> set bs. b \<noteq> [] \<and> hd b \<noteq> slash \<and> last b \<noteq> slash \<Longrightarrow>
   os_path_join path bs = path @ concat (map (\<lambda>b. slash # b) bs)"
proof (induction bs arbitrary: path)
  case Nil
  show ?case by simp
next
  case (Cons b bs)
  have b: "b \<noteq> []" "hd b \<noteq> slash" "last b \<noteq> slash" using Cons.prems(3) by auto
  have "os_path_join path (b # bs) = os_path_join (path @ [slash] @ b) bs"
    using Cons.prems(1,2) b by simp
  also have "\<dots> = (path @ [slash] @ b) @ concat (map (\<lambda>b. slash # b) bs)"
    using b Cons.prems(3) by (intro Cons.IH) auto
  finally show ?case by simp
qed

lemma sanitized_no_slash:
  "sanitize_filename s \<noteq> [] \<and> hd (sanitize_filename s) \<noteq> slash \<and>
   last (sanitize_filename s) \<noteq> slash"
proof -
  have w: "wellformed_name (sanitize_filename s)" by (rule sanitize_filename_wellformed_name)
  then have ne: "sanitize_filename s \<noteq> []" by (simp add: wellformed_name_def)
  have "\<not> allowed_char slash" by (simp add: allowed_char_def slash_def)
  moreover have "\<forall>c \<in> set (sanitize_filename s). allowed_char c"
    using w by (simp add: wellformed_name_def list_all_iff)
  ultimately have "slash \<notin> set (sanitize_filename s)" by blast
  then show ?thesis using ne hd_in_set last_in_set by metis
qed

lemma deck_directory_segments:
  "deck_directory deck_name =
     output_dir @ concat (map (\<lambda>part. slash # sanitize_filename part)
       (filter (\<lambda>part. part \<noteq> []) (py_split_colons deck_name)))"
proof -
  have "output_dir \<noteq> [] \<and> last output_dir \<noteq> slash"
    by (simp add: output_dir_def ustr_def slash_def)
  then have "os_path_join output_dir
      (map sanitize_filename (filter (\<lambda>part. part \<noteq> []) (py_split_colons deck_name))) =
    output_dir @ concat (map (\<lambda>b. slash # b)
      (map sanitize_filename (filter (\<lambda>part. part \<noteq> []) (py_split_colons deck_name))))"
    using sanitized_no_slash by (intro os_path_join_segments) auto
  then show ?thesis by (simp add: deck_directory_def Let_def comp_def)
qed

text \<open>
  Claim C7, amended. For every deck that has notes, the directory the exporter creates
  for it is the output root followed by one sanitized path segment for each non-empty
  component of the deck name between \<^verbatim>\<open>::\<close> separators, in order; empty components
  give no segment.
\<close>

theorem deck_directory_created:
  "get_notes_in_deck env deck_name = Inr notes \<Longrightarrow> notes \<noteq> [] \<Longrightarrow>
   dirs (state_of (process_deck env handle deck_name st)) =
     dirs st @ [output_dir @ concat (map (\<lambda>part. slash # sanitize_filename part)
       (filter (\<lambda>part. part \<noteq> []) (py_split_colons deck_name)))]"
proof -
  assume fetched: "get_notes_in_deck env deck_name = Inr notes" "notes \<noteq> []"
  let ?st = "st\<lparr>out := out st @ [Processing_deck deck_name],
    dirs := dirs st @ [deck_directory deck_name]\<rparr>"
  let ?r = "process_notes handle (deck_directory deck_name) notes (Map.empty, ?st)"
  have pd: "process_deck env handle deck_name st =
      (case ?r of Inl failure \<Rightarrow> Inl failure | Inr (title_counts, st') \<Rightarrow> Inr st')"
    using fetched by (simp add: process_deck_def Let_def)
  have "dirs (state_of (process_deck env handle deck_name st)) = dirs ?st"
  proof (cases ?r)
    case (Inl failure)
    obtain e st' where f: "failure = (e, st')" by (cases failure)
    have "dirs st' = dirs ?st"
      using Inl f
        process_notes_dirs [of handle "deck_directory deck_name" "notes" Map.empty ?st e st']
      by blast
    then show ?thesis using pd Inl f by (simp add: state_of_def)
  next
    case (Inr cs)
    obtain c' st' where f: "cs = (c', st')" by (cases cs)
    have "dirs st' = dirs ?st"
      using Inr f
        process_notes_dirs [of handle "deck_directory deck_name" "notes" Map.empty ?st _ st' c']
      by blast
    then show ?thesis using pd Inr f by (simp add: state_of_def)
  qed
  then show ?thesis by (simp add: deck_directory_segments)
qed

lemma split_examples:
  "py_split_colons (ustr ''A::::B'') = [ustr ''A'', [], ustr ''B'']"
  "py_split_colons (ustr ''Math::Algebra'') = [ustr ''Math'', ustr ''Algebra'']"
  by (simp_all add: py_split_colons_def ustr_def)

lemma sanitize_parts:
  "sanitize_filename (ustr ''A'') = ustr ''A''"
  "sanitize_filename (ustr ''B'') = ustr ''B''"
  "sanitize_filename [] = ustr ''unnamed''"
  "sanitize_filename (ustr ''Math'') = ustr ''Math''"
  "sanitize_filename (ustr ''Algebra'') = ustr ''Algebra''"
  by (simp_all add: sanitize_filename_def sanitize_pre_def py_replace_def py_strip_chars_def
      allowed_char_def eval_defs)

lemma deck_directory_examples:
  "deck_directory (ustr ''A::::B'') = ustr ''markdown_output/A/B''"
  "deck_directory (ustr ''Math::Algebra'') = ustr ''markdown_output/Math/Algebra''"
  by (simp_all add: deck_directory_segments split_examples sanitize_parts ustr_Nil_iff)
     (simp_all add: output_dir_def eval_defs)

text \<open>
  The deck \<^verbatim>\<open>Math::Algebra\<close> with one note.
\<close>

theorem deck_directory_created_witness:
  "get_notes_in_deck (one_deck (ustr ''Math::Algebra'') [front_note 42 ''a''])
      (ustr ''Math::Algebra'') = Inr [front_note 42 ''a''] \<and>
   dirs (state_of (process_deck (one_deck (ustr ''Math::Algebra'') [front_note 42 ''a''])
      plain_text (ustr ''Math::Algebra'') initial_state)) =
     [ustr ''markdown_output/Math/Algebra'']"
proof -
  have g: "get_notes_in_deck (one_deck (ustr ''Math::Algebra'') [front_note 42 ''a''])
      (ustr ''Math::Algebra'') = Inr [front_note 42 ''a'']"
    by (simp add: get_notes_in_deck_def anki_connect_def raise_for_status_def
        response_json_def one_deck_def
        ok_def front_note_def)
  have "dirs (state_of (process_deck (one_deck (ustr ''Math::Algebra'') [front_note 42 ''a''])
      plain_text (ustr ''Math::Algebra'') initial_state)) =
     dirs initial_state @ [deck_directory (ustr ''Math::Algebra'')]"
    using deck_directory_created [OF g, of plain_text initial_state]
    by (simp add: deck_directory_segments)
  then show ?thesis using g by (simp add: deck_directory_examples initial_state_def)
qed

text \<open>
  The claim as stated has one segment per component. The deck name \<^verbatim>\<open>A::::B\<close> has
  three components, the middle one empty; one segment each would give
  \<^verbatim>\<open>markdown_output/A/unnamed/B\<close>, and the exporter, which filters the components with
  \<^verbatim>\<open>if part\<close>, creates \<^verbatim>\<open>markdown_output/A/B\<close>.
\<close>

theorem empty_component_counterexample:
  "py_split_colons (ustr ''A::::B'') = [ustr ''A'', [], ustr ''B''] \<and>
   os_path_join output_dir (map sanitize_filename (py_split_colons (ustr ''A::::B''))) =
     ustr ''markdown_output/A/unnamed/B'' \<and>
   dirs (main (one_deck (ustr ''A::::B'') [front_note 1 ''a'']) plain_text) =
     [output_dir, ustr ''markdown_output/A/B'']"
proof -
  have 1: "os_path_join output_dir (map sanitize_filename (py_split_colons (ustr ''A::::B''))) =
     ustr ''markdown_output/A/unnamed/B''"
    by (simp add: split_examples sanitize_parts) (simp add: output_dir_def eval_defs)
  have 2: "dirs (main (one_deck (ustr ''A::::B'') [front_note 1 ''a'']) plain_text) =
     [output_dir, ustr ''markdown_output/A/B'']"
    by (simp add: main_one_deck process_note_front front_note_fields ustr_Nil_iff
        deck_directory_examples)
  show ?thesis using 1 2 by (simp add: split_examples)
qed

subsection \<open>Numbering of equal base names\<close>

lemma str_nat_value: "foldl (\<lambda>a d. 10 * a + (d - 48)) 0 (str_nat n) = n"
proof (induction n rule: str_nat.induct)
  case (1 n)
  show ?case
  proof (cases "n < 10")
    case True
    have "str_nat n = [of_char CHR ''0'' + n]"
      using True by (subst str_nat.simps) simp
    then show ?thesis by simp
  next
    case False
    have ih: "foldl (\<lambda>a d. 10 * a + (d - 48)) 0 (str_nat (n div 10)) = n div 10"
      using 1 False by blast
    have "str_nat n = str_nat (n div 10) @ [of_char CHR ''0'' + n mod 10]"
      using False by (subst str_nat.simps) simp
    then have "foldl (\<lambda>a d. 10 * a + (d - 48)) 0 (str_nat n) =
        10 * (n div 10) + n mod 10"
      using ih by simp
    then show ?thesis by simp
  qed
qed

lemma str_nat_inj: "str_nat j = str_nat k \<Longrightarrow> j = k"
  by (metis str_nat_value)

lemma numbered_filename_inj:
  assumes "numbered_filename base j = numbered_filename base k"
  shows "j = k"
proof -
  let ?suffix = "\<lambda>i. if i > 0 then ustr ''_'' @ str_nat i @ ustr ''.md'' else ustr ''.md''"
  have nf: "\<And>i. numbered_filename base i = base @ ?suffix i"
    by (simp add: numbered_filename_def)
  have eq: "?suffix j = ?suffix k" using assms unfolding nf by (rule same_append_eq [THEN iffD1])
  show ?thesis
  proof (cases "j = 0 \<or> k = 0")
    case True
    then show ?thesis using eq by (auto simp: ustr_def split: if_splits)
  next
    case False
    then have "ustr ''_'' @ str_nat j @ ustr ''.md'' = ustr ''_'' @ str_nat k @ ustr ''.md''"
      using eq by simp
    then have "str_nat j = str_nat k" by simp
    then show ?thesis by (rule str_nat_inj)
  qed
qed

lemma os_path_join_single:
  "hd f \<noteq> slash \<Longrightarrow>
   os_path_join d [f] = (if d = [] \<or> last d = slash then d @ f else d @ [slash] @ f)"
  by simp

lemma os_path_join_inj:
  assumes "os_path_join d [f] = os_path_join d [g]"
    and "hd f \<noteq> slash" "hd g \<noteq> slash"
  shows "f = g"
proof -
  have "os_path_join d [f] = (if d = [] \<or> last d = slash then d @ f else d @ [slash] @ f)"
    using assms(2) by (rule os_path_join_single)
  moreover have
    "os_path_join d [g] = (if d = [] \<or> last d = slash then d @ g else d @ [slash] @ g)"
    using assms(3) by (rule os_path_join_single)
  ultimately have "(if d = [] \<or> last d = slash then d @ f else d @ [slash] @ f) =
      (if d = [] \<or> last d = slash then d @ g else d @ [slash] @ g)"
    using assms(1) by (simp only:)
  then show ?thesis by (cases "d = [] \<or> last d = slash") simp_all
qed

lemma numbered_filename_hd:
  "base \<noteq> [] \<Longrightarrow> hd (numbered_filename base k) = hd base"
  by (simp add: numbered_filename_def)

lemma same_base_distinct:
  assumes "base \<noteq> []" "hd base \<noteq> slash"
  shows "distinct (map (\<lambda>i. os_path_join d [numbered_filename base i]) [k..<k + m])"
proof -
  have "inj_on (\<lambda>i. os_path_join d [numbered_filename base i]) (set [k..<k + m])"
  proof (rule inj_onI)
    fix i j
    assume "os_path_join d [numbered_filename base i] = os_path_join d [numbered_filename base j]"
    moreover have "hd (numbered_filename base i) \<noteq> slash"
      "hd (numbered_filename base j) \<noteq> slash"
      using assms by (simp_all add: numbered_filename_hd)
    ultimately have "numbered_filename base i = numbered_filename base j"
      by (rule os_path_join_inj)
    then show "i = j" by (rule numbered_filename_inj)
  qed
  then show ?thesis by (simp add: distinct_map)
qed

lemma same_base_run:
  assumes "\<forall>n \<in> set ns. derived_base handle n = base"
    and "title st \<noteq> None \<or> ns = [] \<or> field_value (hd ns) ''Front'' \<noteq> []"
    and "(case title_counts base of None \<Rightarrow> 0 | Some c \<Rightarrow> c) = k"
  shows "\<exists>title_counts' st'.
    process_notes handle d ns (title_counts, st) = Inr (title_counts', st') \<and>
    map fst (files st') =
      map fst (files st) @
      map (\<lambda>i. os_path_join d [numbered_filename base i]) [k..<k + length ns]"
  using assms
proof (induction ns arbitrary: title_counts st k)
  case Nil
  show ?case by simp
next
  case (Cons n ns)
  have base: "derived_base handle n = base" using Cons.prems(1) by simp
  let ?tc = "title_counts(base \<mapsto> Suc k)"
  have nf: "next_filename title_counts base = (numbered_filename base k, ?tc)"
    using Cons.prems(3) by (simp add: next_filename_eq)
  have "\<exists>st1. process_note handle d n (title_counts, st) = Inr (?tc, st1) \<and>
      title st1 \<noteq> None \<and>
      map fst (files st1) = map fst (files st) @ [os_path_join d [numbered_filename base k]]"
  proof (cases "field_value n ''Front'' = []")
    case True
    then obtain t where t: "title st = Some t" using Cons.prems(2) by auto
    show ?thesis
      using True t by (simp add: process_note_no_front base nf del: os_path_join.simps)
  next
    case False
    then show ?thesis by (simp add: process_note_front base nf del: os_path_join.simps)
  qed
  then obtain st1 where st1: "process_note handle d n (title_counts, st) = Inr (?tc, st1)"
    "title st1 \<noteq> None"
    "map fst (files st1) = map fst (files st) @ [os_path_join d [numbered_filename base k]]"
    by blast
  have "\<exists>title_counts' st'.
    process_notes handle d ns (?tc, st1) = Inr (title_counts', st') \<and>
    map fst (files st') =
      map fst (files st1) @
      map (\<lambda>i. os_path_join d [numbered_filename base i]) [Suc k..<Suc k + length ns]"
    using Cons.prems(1) st1(2) by (intro Cons.IH) auto
  then obtain tc' st' where r: "process_notes handle d ns (?tc, st1) = Inr (tc', st')"
    "map fst (files st') =
      map fst (files st1) @
      map (\<lambda>i. os_path_join d [numbered_filename base i]) [Suc k..<Suc k + length ns]"
    by blast
  have "[k..<k + length (n # ns)] = k # [Suc k..<k + length (n # ns)]"
    by (rule upt_conv_Cons) simp
  then have "[k..<k + length (n # ns)] = k # [Suc k..<Suc k + length ns]"
    by simp
  then have "map fst (files st') =
      map fst (files st) @
      map (\<lambda>i. os_path_join d [numbered_filename base i]) [k..<k + length (n # ns)]"
    using r(2) st1(3) by (simp del: os_path_join.simps)
  then show ?case using st1(1) r(1) by simp
qed

text \<open>
  The counter of lines 135 to 140 on its own terms: when every note of a deck has the
  same derived base, and the loop is not stopped by the unassigned \<^verbatim>\<open>title\<close> (it is
  assigned already, or the first note has a Front), the notes are written to
  \<^verbatim>\<open>base.md\<close>, \<^verbatim>\<open>base_1.md\<close>, and so on in order, and these paths differ from each
  other.
\<close>

lemma same_base_filenames:
  assumes "\<forall>n \<in> set ns. derived_base handle n = base"
    and "title st \<noteq> None \<or> ns = [] \<or> field_value (hd ns) ''Front'' \<noteq> []"
  shows "\<exists>title_counts' st'.
    process_notes handle d ns (Map.empty, st) = Inr (title_counts', st') \<and>
    map fst (files st') =
      map fst (files st) @
      map (\<lambda>i. os_path_join d [numbered_filename base i]) [0..<length ns] \<and>
    distinct (map (\<lambda>i. os_path_join d [numbered_filename base i]) [0..<length ns])"
proof -
  have run: "\<exists>title_counts' st'.
    process_notes handle d ns (Map.empty, st) = Inr (title_counts', st') \<and>
    map fst (files st') =
      map fst (files st) @
      map (\<lambda>i. os_path_join d [numbered_filename base i]) [0..<0 + length ns]"
    using assms by (intro same_base_run) simp_all
  have "distinct (map (\<lambda>i. os_path_join d [numbered_filename base i]) [0..<0 + length ns])"
  proof (cases ns)
    case Nil
    then show ?thesis by simp
  next
    case (Cons n ns')
    then have "base = derived_base handle n" using assms(1) by simp
    then have "base \<noteq> [] \<and> hd base \<noteq> slash"
      using sanitized_no_slash by (simp add: derived_base_def)
    then show ?thesis by (intro same_base_distinct) simp_all
  qed
  then show ?thesis using run by simp
qed

end
